theory Spec2Isabelle
  imports Main
begin

section \<open>The AMQP adapter of moleculer-channels (src/adapters/amqp.js)\<close>

text \<open>
  The adapter is a JavaScript class whose methods mutate the adapter object and talk to
  three collaborators: the amqplib connection and channel, the Active-Message Tracker it
  inherits from the base adapter, and the timer. The model passes the adapter as a record
  and returns it updated; every call on a collaborator is appended to the field
  \<open>log\<close>, oldest first. What a collaborator answers (whether a connection
  attempt succeeds, what \<open>channel.publish\<close> returns, whether the application's
  handler throws, how many messages the tracker counts) is an argument of the function
  that asks. An exception is the value \<open>Inl (e, s)\<close>: the error and the adapter
  as the mutations made before the throw left it.

  Transport calls other than connect, close and publish (assertExchange, assertQueue,
  bindQueue, consume, cancel, ack, nack, prefetch, createChannel) are taken to succeed;
  the option bags of exchanges, queues and consumers are passed through by the source
  and are not part of the model; log lines are left out.
\<close>

subsection \<open>Data\<close>

type_synonym bytes = string

text \<open>
  A message's header table. The two keys the adapter reads or writes are fields; every
  other key is carried in \<open>custom\<close>. \<open>None\<close> is an absent key. The
  redelivery count, where present, is a number, as the adapter writes it.
\<close>

record headers =
  x_redelivered_count :: "int option"
  x_original_channel :: "string option"
  custom :: "(string \<times> string) list"

definition no_headers :: headers where
  "no_headers = \<lparr>x_redelivered_count = None, x_original_channel = None, custom = []\<rparr>"

text \<open>The options object handed to \<open>channel.publish\<close>; \<open>None\<close> is undefined.\<close>

record msg_options =
  persistent :: "bool option"
  expiration :: "nat option"
  priority :: "nat option"
  correlationId :: "string option"
  opt_headers :: "headers option"

definition no_options :: msg_options where
  "no_options = \<lparr>persistent = None, expiration = None, priority = None,
     correlationId = None, opt_headers = None\<rparr>"

text \<open>A delivery as amqplib hands it to the consumer callback (content, properties, fields).\<close>

record message =
  content :: bytes
  msg_headers :: headers
  msg_correlationId :: "string option"
  consumerTag :: string
  deliveryTag :: nat

text \<open>\<open>chan.deadLettering\<close>; an absent \<open>enabled\<close> is falsy.\<close>

record dead_lettering =
  enabled :: "bool option"
  queueName :: "string option"
  exchangeName :: "string option"

text \<open>The Channel Descriptor, as far as the adapter reads it.\<close>

record channel =
  chan_id :: string
  chan_name :: string
  chan_group :: string
  maxRetries :: "int option"
  deadLettering :: "dead_lettering option"

text \<open>
  \<open>opts.amqp.url\<close> as the constructor leaves it: a string has been split at the
  semicolons into an array; anything else (undefined, a connection object) is kept.
\<close>

datatype uri = Uri string | UriUndefined | UriObject

datatype amqp_url = UrlArray "string list" | UrlOther uri

record adapter_opts =
  url :: amqp_url
  prefetch :: "nat option"
  default_maxRetries :: "int option"
  default_deadLettering :: "dead_lettering option"
  messageOptions :: msg_options

datatype msg_id = CorrelationId string | ConsumerDelivery string nat

datatype error =
    TypeError
  | MoleculerError string
  | ConnectError

text \<open>Calls on the collaborators, in the order the adapter makes them.\<close>

datatype effect =
    Connect uri
  | CreateChannel
  | Prefetch nat
  | CloseConnection
  | AssertExchange string
  | AssertQueue string
  | BindQueue string string
  | Consume string
  | Cancel string
  | Publish string "string option" bytes msg_options
  | Ack nat
  | Nack nat bool bool
  | InitActive string
  | AddActive string msg_id
  | RemoveActive string msg_id
  | StopActive string
  | SetTimeout nat

text \<open>
  A Channel Descriptor is an object the caller owns; the subscription table and every
  consumer callback hold a reference to it, and \<open>subscribe\<close> writes to it. So
  descriptors live in the store \<open>chans\<close> and are named by their address. The
  subscription table is a JavaScript Map: an association list in insertion order.
\<close>

record adapter =
  opts :: adapter_opts
  connection :: "nat option"
  channel :: "nat option"
  subscriptions :: "(string \<times> (nat \<times> string)) list"
  connected :: bool
  stopping :: bool
  connectAttempt :: nat
  connectionCount :: nat
  chans :: "nat \<Rightarrow> channel"
  log :: "effect list"

type_synonym outcome = "(error \<times> adapter) + adapter"

definition emit :: "effect \<Rightarrow> adapter \<Rightarrow> adapter" where
  "emit e s = s\<lparr>log := log s @ [e]\<rparr>"

text \<open>\<open>this.channel.op(...)\<close>: a TypeError while \<open>this.channel\<close> is null.\<close>

definition on_channel :: "effect \<Rightarrow> adapter \<Rightarrow> outcome" where
  "on_channel e s = (case channel s of None \<Rightarrow> Inl (TypeError, s) | Some c \<Rightarrow> Inr (emit e s))"

definition and_then :: "outcome \<Rightarrow> (adapter \<Rightarrow> outcome) \<Rightarrow> outcome" where
  "and_then r f = (case r of Inl x \<Rightarrow> Inl x | Inr s \<Rightarrow> f s)"

definition buffer_full :: error where
  "buffer_full = MoleculerError ''AMQP publish error. Write buffer is full.''"

subsection \<open>The consumer callback (createConsumerHandler)\<close>

definition queue_of :: "channel \<Rightarrow> string" where
  "queue_of chan = chan_group chan @ ''.'' @ chan_name chan"

text \<open>\<open>msg.properties.correlationId || `${consumerTag}:${deliveryTag}`\<close>\<close>

definition message_id :: "message \<Rightarrow> msg_id" where
  "message_id msg =
     (case msg_correlationId msg of
        None \<Rightarrow> ConsumerDelivery (consumerTag msg) (deliveryTag msg)
      | Some c \<Rightarrow> if c = [] then ConsumerDelivery (consumerTag msg) (deliveryTag msg)
                  else CorrelationId c)"

text \<open>\<open>msg.properties.headers["x-redelivered-count"] || 1\<close>: absent and 0 are falsy.\<close>

definition redeliveryCount :: "message \<Rightarrow> int" where
  "redeliveryCount msg =
     (case x_redelivered_count (msg_headers msg) of
        None \<Rightarrow> 1
      | Some n \<Rightarrow> if n = 0 then 1 else n)"

text \<open>\<open>!chan.maxRetries\<close>: undefined, null and 0 are falsy.\<close>

definition no_retries :: "channel \<Rightarrow> bool" where
  "no_retries chan = (case maxRetries chan of None \<Rightarrow> True | Some n \<Rightarrow> n = 0)"

text \<open>\<open>chan.maxRetries > 0 && redeliveryCount >= chan.maxRetries\<close>\<close>

definition retries_exhausted :: "channel \<Rightarrow> int \<Rightarrow> bool" where
  "retries_exhausted chan count =
     (case maxRetries chan of None \<Rightarrow> False | Some n \<Rightarrow> 0 < n \<and> n \<le> count)"

text \<open>
  The tail both publishing branches share: the publish has been handed over and
  returned \<open>res\<close>; \<open>false\<close> throws, anything else acknowledges the delivery.
\<close>

definition publish_then_ack :: "effect \<Rightarrow> bool \<Rightarrow> message \<Rightarrow> adapter \<Rightarrow> outcome" where
  "publish_then_ack p res msg s =
     and_then (on_channel p s)
       (\<lambda>s'. if \<not> res then Inl (buffer_full, s') else on_channel (Ack (deliveryTag msg)) s')"

text \<open>
  The catch block (amqp.js lines 319 to 375). \<open>ref\<close> is the descriptor the callback
  was created for, \<open>res\<close> what \<open>channel.publish\<close> returns if the block
  reaches one.
\<close>

definition on_failure :: "nat \<Rightarrow> message \<Rightarrow> bool \<Rightarrow> adapter \<Rightarrow> outcome" where
  "on_failure ref msg res s0 =
     (let chan = chans s0 ref;
          s1 = emit (RemoveActive (chan_id chan) (message_id msg)) s0
      in and_then
           (if no_retries chan then on_channel (Nack (deliveryTag msg) False False) s1
            else Inr s1)
           (\<lambda>s2.
              let count = redeliveryCount msg in
              if retries_exhausted chan count then
                (case deadLettering chan of
                   None \<Rightarrow> Inl (TypeError, s2)
                 | Some dl \<Rightarrow>
                     if enabled dl = Some True then
                       publish_then_ack
                         (Publish (case exchangeName dl of None \<Rightarrow> [] | Some e \<Rightarrow> e)
                            (queueName dl) (content msg)
                            (no_options\<lparr>opt_headers :=
                               Some (no_headers\<lparr>x_original_channel := Some (chan_name chan)\<rparr>)\<rparr>))
                         res msg s2
                     else on_channel (Nack (deliveryTag msg) False False) s2)
              else
                publish_then_ack
                  (Publish [] (Some (queue_of chan)) (content msg)
                     (no_options\<lparr>opt_headers :=
                        Some ((msg_headers msg)\<lparr>x_redelivered_count := Some (count + 1)\<rparr>)\<rparr>))
                  res msg s2))"

text \<open>
  The callback itself. \<open>handled\<close> says whether deserializing the content and
  awaiting \<open>chan.handler\<close> completed without throwing. An exception of the
  acknowledgment inside the try block lands in the same catch block.
\<close>

definition createConsumerHandler :: "nat \<Rightarrow> message \<Rightarrow> bool \<Rightarrow> bool \<Rightarrow> adapter \<Rightarrow> outcome" where
  "createConsumerHandler ref msg handled res s =
     (let chan = chans s ref;
          s1 = emit (AddActive (chan_id chan) (message_id msg)) s
      in if handled then
           (case on_channel (Ack (deliveryTag msg)) s1 of
              Inr s2 \<Rightarrow> Inr (emit (RemoveActive (chan_id chan) (message_id msg)) s2)
            | Inl (e, s2) \<Rightarrow> on_failure ref msg res s2)
         else on_failure ref msg res s1)"


subsection \<open>The broker's side of a redelivery\<close>

text \<open>
  A message published to the default exchange with a queue's name as routing key lands in
  that queue, and the queue's consumer receives it with the published content and
  headers under the next delivery tag.
\<close>

fun requeued :: "string \<Rightarrow> effect list \<Rightarrow> (bytes \<times> msg_options) list" where
  "requeued q [] = []"
| "requeued q (Publish ex rk c ops # es) =
     (if ex = [] \<and> rk = Some q then (c, ops) # requeued q es else requeued q es)"
| "requeued q (e # es) = requeued q es"

definition redelivered :: "message \<Rightarrow> bytes \<times> msg_options \<Rightarrow> message" where
  "redelivered msg p =
     \<lparr>content = fst p,
      msg_headers = (case opt_headers (snd p) of None \<Rightarrow> no_headers | Some h \<Rightarrow> h),
      msg_correlationId = correlationId (snd p),
      consumerTag = consumerTag msg,
      deliveryTag = Suc (deliveryTag msg)\<rparr>"

text \<open>
  A message whose handler throws on every delivery. Each element of the list is what
  \<open>channel.publish\<close> returns during one delivery; \<open>None\<close> says the message
  is still going round when the list is used up.
\<close>

fun fail_always :: "nat \<Rightarrow> message \<Rightarrow> bool list \<Rightarrow> adapter \<Rightarrow> outcome option" where
  "fail_always ref msg [] s = None"
| "fail_always ref msg (res # ress) s =
     (case createConsumerHandler ref msg False res s of
        Inl x \<Rightarrow> Some (Inl x)
      | Inr s' \<Rightarrow>
          (case requeued (queue_of (chans s' ref)) (drop (length (log s)) (log s')) of
             [] \<Rightarrow> Some (Inr s')
           | p # ps \<Rightarrow> fail_always ref (redelivered msg p) ress s'))"

subsection \<open>Subscribing\<close>

text \<open>\<open>_.defaultsDeep\<close>: a value that is there wins over its default.\<close>

definition defaults :: "'a option \<Rightarrow> 'a option \<Rightarrow> 'a option" where
  "defaults a b = (case a of None \<Rightarrow> b | Some x \<Rightarrow> Some x)"

definition no_dead_lettering :: dead_lettering where
  "no_dead_lettering = \<lparr>enabled = None, queueName = None, exchangeName = None\<rparr>"

definition dl_defaultsDeep :: "dead_lettering option \<Rightarrow> dead_lettering option \<Rightarrow> dead_lettering" where
  "dl_defaultsDeep a b =
     (let x = (case a of None \<Rightarrow> no_dead_lettering | Some d \<Rightarrow> d);
          y = (case b of None \<Rightarrow> no_dead_lettering | Some d \<Rightarrow> d)
      in \<lparr>enabled = defaults (enabled x) (enabled y),
          queueName = defaults (queueName x) (queueName y),
          exchangeName = defaults (exchangeName x) (exchangeName y)\<rparr>)"

text \<open>\<open>Map.prototype.set\<close>: a key that is there keeps its place.\<close>

fun map_set :: "'k \<Rightarrow> 'v \<Rightarrow> ('k \<times> 'v) list \<Rightarrow> ('k \<times> 'v) list" where
  "map_set k v [] = [(k, v)]"
| "map_set k v ((k', v') # kvs) =
     (if k = k' then (k, v) # kvs else (k', v') # map_set k v kvs)"

text \<open>
  Modelled from the spec: \<open>addPrefixTopic\<close> of the base adapter, whose file
  (src/adapters/base.js) is not among the sources. The spec's configuration surface lists
  a "topic/queue/exchange name prefix (applied uniformly to dead-letter destinations)":
  with a prefix configured, a name that is there gets the prefix in front; without one
  the name is returned as it is. The prefix of the model is all that is put in front of
  the name, a separator included.
\<close>

definition addPrefixTopic :: "string option \<Rightarrow> string option \<Rightarrow> string option" where
  "addPrefixTopic prefix topicName =
     (case prefix of
        None \<Rightarrow> topicName
      | Some p \<Rightarrow> (case topicName of None \<Rightarrow> None | Some n \<Rightarrow> Some (p @ n)))"

text \<open>
  Lines 237 to 244 of \<open>subscribe\<close>: the defaults are written into the
  descriptor itself, and with dead-lettering enabled the dead-letter names are replaced
  by what \<open>addPrefixTopic\<close> (here \<open>addPrefix\<close>) makes of them.
\<close>

definition backfill :: "(string option \<Rightarrow> string option) \<Rightarrow> adapter_opts \<Rightarrow> channel \<Rightarrow> channel" where
  "backfill addPrefix os chan =
     (let chan1 = (case maxRetries chan of
                     None \<Rightarrow> chan\<lparr>maxRetries := default_maxRetries os\<rparr>
                   | Some n \<Rightarrow> chan);
          dl = dl_defaultsDeep (deadLettering chan1) (default_deadLettering os);
          dl' = (if enabled dl = Some True
                 then dl\<lparr>queueName := addPrefix (queueName dl),
                         exchangeName := addPrefix (exchangeName dl)\<rparr>
                 else dl)
      in chan1\<lparr>deadLettering := Some dl'\<rparr>)"

text \<open>
  \<open>subscribe(chan)\<close>, amqp.js lines 230 to 295. \<open>tag\<close> is the consumer tag
  the broker answers the consume with. The descriptor is written to before the first
  call on the channel.
\<close>

definition subscribe :: "(string option \<Rightarrow> string option) \<Rightarrow> string \<Rightarrow> nat \<Rightarrow> adapter \<Rightarrow> outcome" where
  "subscribe addPrefix tag ref s =
     (let chan = backfill addPrefix (opts s) (chans s ref);
          s1 = s\<lparr>chans := (chans s)(ref := chan)\<rparr>;
          q = queue_of chan
      in and_then (on_channel (AssertExchange (chan_name chan)) s1) (\<lambda>s2.
         and_then (on_channel (AssertQueue q) s2) (\<lambda>s3.
         and_then (on_channel (BindQueue q (chan_name chan)) s3) (\<lambda>s4.
         and_then (on_channel (Consume q) (emit (InitActive (chan_id chan)) s4)) (\<lambda>s5.
         Inr (s5\<lparr>subscriptions :=
                map_set (chan_id chan) (ref, tag) (subscriptions s5)\<rparr>))))))"

text \<open>
  \<open>resubscribeAllChannels\<close>: the loop runs over a copy of the table's values made
  before the first subscribe; \<open>tags i\<close> is the consumer tag the broker gives the
  \<open>i\<close>-th of them.
\<close>

fun resubscribe_each ::
  "(string option \<Rightarrow> string option) \<Rightarrow> (nat \<Rightarrow> string) \<Rightarrow> nat \<Rightarrow> (nat \<times> string) list \<Rightarrow> adapter \<Rightarrow> outcome" where
  "resubscribe_each addPrefix tags i [] s = Inr s"
| "resubscribe_each addPrefix tags i (e # es) s =
     and_then (subscribe addPrefix (tags i) (fst e) s) (resubscribe_each addPrefix tags (Suc i) es)"

definition resubscribeAllChannels ::
  "(string option \<Rightarrow> string option) \<Rightarrow> (nat \<Rightarrow> string) \<Rightarrow> adapter \<Rightarrow> outcome" where
  "resubscribeAllChannels addPrefix tags s =
     resubscribe_each addPrefix tags 0 (map snd (subscriptions s)) s"

subsection \<open>Connecting and disconnecting\<close>

text \<open>
  The adapter as the constructor leaves it, for options in which the defaults are filled
  in and a URL string is split.
\<close>

definition new_adapter :: "adapter_opts \<Rightarrow> (nat \<Rightarrow> channel) \<Rightarrow> adapter" where
  "new_adapter os descriptors =
     \<lparr>opts = os, connection = None, channel = None, subscriptions = [],
      connected = False, stopping = False, connectAttempt = 0, connectionCount = 0,
      chans = descriptors, log = []\<rparr>"

text \<open>
  \<open>uri[urlIndex]\<close> with \<open>urlIndex = (this.connectAttempt - 1) % uri.length\<close>,
  the attempt counter already incremented. On an empty array the index is NaN and the
  element undefined.
\<close>

definition url_of_attempt :: "string list \<Rightarrow> nat \<Rightarrow> uri" where
  "url_of_attempt us attempt =
     (if us = [] then UriUndefined else Uri (us ! ((attempt - 1) mod length us)))"

text \<open>
  \<open>tryConnect\<close>, lines 136 to 203. \<open>accepted\<close> says whether
  \<open>Amqplib.connect\<close> resolves. A handle is the number of calls logged when it was
  made.
\<close>

definition tryConnect ::
  "(string option \<Rightarrow> string option) \<Rightarrow> (nat \<Rightarrow> string) \<Rightarrow> bool \<Rightarrow> adapter \<Rightarrow> outcome" where
  "tryConnect addPrefix tags accepted s =
     (let s1 = (case url (opts s) of
                  UrlArray us \<Rightarrow> s\<lparr>connectAttempt := connectAttempt s + 1\<rparr>
                | UrlOther u \<Rightarrow> s);
          target = (case url (opts s) of
                      UrlArray us \<Rightarrow> url_of_attempt us (connectAttempt s1)
                    | UrlOther u \<Rightarrow> u);
          s2 = emit (Connect target) s1
      in if \<not> accepted then Inl (ConnectError, s2)
         else
           let s3 = s2\<lparr>connection := Some (length (log s2)), connected := True\<rparr>;
               s4 = emit CreateChannel s3;
               s5 = s4\<lparr>channel := Some (length (log s4))\<rparr>;
               s6 = (case prefetch (opts s5) of None \<Rightarrow> s5 | Some n \<Rightarrow> emit (Prefetch n) s5);
               s7 = s6\<lparr>connectionCount := connectionCount s6 + 1\<rparr>
           in if 1 < connectionCount s7 then resubscribeAllChannels addPrefix tags s7
              else Inr s7)"

text \<open>
  \<open>connect\<close>: try, and on a failure try again 2000 ms later, without a bound. The
  list holds the outcomes of the successive calls of \<open>Amqplib.connect\<close>;
  \<open>None\<close> says the adapter is still retrying when the list is used up.
\<close>

fun connect ::
  "(string option \<Rightarrow> string option) \<Rightarrow> (nat \<Rightarrow> string) \<Rightarrow> bool list \<Rightarrow> adapter \<Rightarrow> adapter option" where
  "connect addPrefix tags [] s = None"
| "connect addPrefix tags (accepted # later) s =
     (case tryConnect addPrefix tags accepted s of
        Inr s' \<Rightarrow> Some s'
      | Inl (e, s') \<Rightarrow> connect addPrefix tags later (emit (SetTimeout 2000) s'))"

text \<open>The connection's "close" event, lines 154 to 165; the timer then calls connect.\<close>

definition on_close :: "adapter \<Rightarrow> adapter" where
  "on_close s =
     (let s1 = s\<lparr>connected := False\<rparr>
      in if \<not> stopping s1 then emit (SetTimeout 2000) s1 else s1)"

text \<open>
  \<open>disconnect\<close>, lines 208 to 223. \<open>closed\<close> says whether
  \<open>connection.close()\<close> resolves; when it does, the connection has emitted its
  "close" event.
\<close>

definition disconnect :: "bool \<Rightarrow> adapter \<Rightarrow> adapter" where
  "disconnect closed s =
     (if stopping s then s
      else
        let s1 = s\<lparr>stopping := True\<rparr>;
            s2 = (case connection s1 of
                    None \<Rightarrow> s1
                  | Some c \<Rightarrow>
                      let s' = emit CloseConnection s1
                      in if closed then (on_close s')\<lparr>connection := None, channel := None\<rparr>
                         else s')
        in s2\<lparr>stopping := False\<rparr>)"

subsection \<open>Unsubscribing\<close>

text \<open>
  The poll of lines 391 to 414. The list holds what
  \<open>getNumberOfChannelActiveMessages(chan.id)\<close> answers at the successive polls;
  \<open>None\<close> says the poll is still waiting when the list is used up.
\<close>

fun checkPendingMessages :: "string \<Rightarrow> nat list \<Rightarrow> adapter \<Rightarrow> adapter option" where
  "checkPendingMessages cid [] s = None"
| "checkPendingMessages cid (n # ns) s =
     (if n = 0 then Some (emit (StopActive cid) s)
      else checkPendingMessages cid ns (emit (SetTimeout 1000) s))"

definition unsubscribe :: "nat \<Rightarrow> nat list \<Rightarrow> adapter \<Rightarrow> outcome option" where
  "unsubscribe ref counts s =
     (let chan = chans s ref in
      case map_of (subscriptions s) (chan_id chan) of
        None \<Rightarrow> Some (Inl (TypeError, s))
      | Some entry \<Rightarrow>
          (case on_channel (Cancel (snd entry)) s of
             Inl x \<Rightarrow> Some (Inl x)
           | Inr s1 \<Rightarrow> map_option Inr (checkPendingMessages (chan_id chan) counts s1)))"

subsection \<open>Publishing\<close>

text \<open>The third argument of \<open>publish\<close>, as far as the adapter reads it.\<close>

record publish_opts =
  raw :: bool
  po_persistent :: "bool option"
  ttl :: "nat option"
  po_priority :: "nat option"
  po_correlationId :: "string option"
  po_headers :: "headers option"

definition headers_defaultsDeep :: "headers option \<Rightarrow> headers option \<Rightarrow> headers option" where
  "headers_defaultsDeep a b =
     (case a of
        None \<Rightarrow> b
      | Some x \<Rightarrow>
          (case b of
             None \<Rightarrow> Some x
           | Some y \<Rightarrow>
               Some \<lparr>x_redelivered_count = defaults (x_redelivered_count x) (x_redelivered_count y),
                     x_original_channel = defaults (x_original_channel x) (x_original_channel y),
                     custom = custom x @ filter (\<lambda>kv. map_of (custom x) (fst kv) = None) (custom y)\<rparr>))"

definition options_defaultsDeep :: "msg_options \<Rightarrow> msg_options \<Rightarrow> msg_options" where
  "options_defaultsDeep a b =
     \<lparr>persistent = defaults (persistent a) (persistent b),
      expiration = defaults (expiration a) (expiration b),
      priority = defaults (priority a) (priority b),
      correlationId = defaults (correlationId a) (correlationId b),
      opt_headers = headers_defaultsDeep (opt_headers a) (opt_headers b)\<rparr>"

text \<open>
  \<open>publish(channelName, payload, opts)\<close>, lines 438 to 462. \<open>serialize\<close> is
  the serializer's, \<open>res\<close> what \<open>channel.publish\<close> returns.
\<close>

definition publish ::
  "(bytes \<Rightarrow> bytes) \<Rightarrow> string \<Rightarrow> bytes \<Rightarrow> publish_opts \<Rightarrow> bool \<Rightarrow> adapter \<Rightarrow> outcome" where
  "publish serialize channelName payload popts res s =
     (if stopping s then Inr s
      else
        let mo = options_defaultsDeep
                   \<lparr>persistent = po_persistent popts, expiration = ttl popts,
                    priority = po_priority popts, correlationId = po_correlationId popts,
                    opt_headers = po_headers popts\<rparr>
                   (messageOptions (opts s));
            data = (if raw popts then payload else serialize payload)
        in and_then (on_channel (Publish channelName (Some []) data mo) s)
             (\<lambda>s'. if \<not> res then Inl (buffer_full, s') else Inr s'))"


subsection \<open>Reading the log\<close>

fun is_publish :: "effect \<Rightarrow> bool" where
  "is_publish (Publish ex rk c ops) = True"
| "is_publish e = False"

fun is_nack :: "effect \<Rightarrow> bool" where
  "is_nack (Nack t a r) = True"
| "is_nack e = False"

fun is_ack :: "effect \<Rightarrow> bool" where
  "is_ack (Ack t) = True"
| "is_ack e = False"

fun is_connect :: "effect \<Rightarrow> bool" where
  "is_connect (Connect u) = True"
| "is_connect e = False"

text \<open>The connection attempts an adapter has made, oldest first.\<close>

definition attempts :: "adapter \<Rightarrow> effect list" where
  "attempts s = filter is_connect (log s)"

text \<open>The publish of lines 336 to 345, which moves a message to the dead-letter queue.\<close>

definition dl_publish :: "channel \<Rightarrow> dead_lettering \<Rightarrow> message \<Rightarrow> effect" where
  "dl_publish chan dl msg =
     Publish (case exchangeName dl of None \<Rightarrow> [] | Some e \<Rightarrow> e) (queueName dl) (content msg)
       (no_options\<lparr>opt_headers :=
          Some (no_headers\<lparr>x_original_channel := Some (chan_name chan)\<rparr>)\<rparr>)"

text \<open>The publish of lines 365 to 369, which puts a message back into its own queue.\<close>

definition republish :: "channel \<Rightarrow> message \<Rightarrow> int \<Rightarrow> effect" where
  "republish chan msg k =
     Publish [] (Some (queue_of chan)) (content msg)
       (no_options\<lparr>opt_headers := Some ((msg_headers msg)\<lparr>x_redelivered_count := Some k\<rparr>)\<rparr>)"

subsection \<open>Concrete adapters, descriptors and messages\<close>

definition plain_opts :: "amqp_url \<Rightarrow> adapter_opts" where
  "plain_opts u =
     \<lparr>url = u, prefetch = Some 10, default_maxRetries = Some 3,
      default_deadLettering = None, messageOptions = no_options\<rparr>"

definition two_hosts :: adapter_opts where
  "two_hosts = plain_opts (UrlArray [''host1'', ''host2''])"

definition orders :: "int option \<Rightarrow> bool \<Rightarrow> channel" where
  "orders retries dead =
     \<lparr>chan_id = ''g.orders'', chan_name = ''orders'', chan_group = ''g'',
      maxRetries = retries,
      deadLettering = Some \<lparr>enabled = Some dead, queueName = Some ''DLQ'', exchangeName = None\<rparr>\<rparr>"

text \<open>An adapter that is connected and has subscribed the one descriptor of its store.\<close>

definition running :: "channel \<Rightarrow> adapter" where
  "running chan =
     \<lparr>opts = two_hosts, connection = Some 1, channel = Some 2,
      subscriptions = [(chan_id chan, (0, ''ctag''))],
      connected = True, stopping = False, connectAttempt = 1, connectionCount = 1,
      chans = (\<lambda>r. chan), log = []\<rparr>"

definition first_delivery :: message where
  "first_delivery =
     \<lparr>content = ''payload'', msg_headers = no_headers, msg_correlationId = None,
      consumerTag = ''ctag'', deliveryTag = 1\<rparr>"

definition ctags :: "nat \<Rightarrow> string" where
  "ctags i = ''ctag''"

definition plain_publish :: publish_opts where
  "plain_publish =
     \<lparr>raw = True, po_persistent = None, ttl = None, po_priority = None,
      po_correlationId = None, po_headers = None\<rparr>"

text \<open>
  A descriptor is subscribed on the first connection; the connection then closes, the
  timer fires and \<open>connect\<close> succeeds again. The result is the descriptor as the
  first subscription left it and as the adapter holds it after the reconnection.
\<close>

definition subscribed_then_reconnected ::
  "(string option \<Rightarrow> string option) \<Rightarrow> adapter_opts \<Rightarrow> channel \<Rightarrow> (channel \<times> channel) option" where
  "subscribed_then_reconnected addPrefix os chan =
     (case connect addPrefix ctags [True] (new_adapter os (\<lambda>r. chan)) of
        None \<Rightarrow> None
      | Some s1 \<Rightarrow>
          (case subscribe addPrefix ''ctag'' 0 s1 of
             Inl x \<Rightarrow> None
           | Inr s2 \<Rightarrow>
               (case connect addPrefix ctags [True] (on_close s2) of
                  None \<Rightarrow> None
                | Some s3 \<Rightarrow> Some (chans s2 0, chans s3 0))))"


definition idle :: adapter where
  "idle = new_adapter two_hosts (\<lambda>r. orders (Some 3) False)"

text \<open>What a run of re-subscriptions over the given descriptors leaves in the store.\<close>

fun backfilled ::
  "(string option \<Rightarrow> string option) \<Rightarrow> adapter_opts \<Rightarrow> nat list \<Rightarrow> (nat \<Rightarrow> channel) \<Rightarrow> (nat \<Rightarrow> channel)" where
  "backfilled f os [] h = h"
| "backfilled f os (r # rs) h = backfilled f os rs (h(r := backfill f os (h r)))"

text \<open>The URI the next call of \<open>tryConnect\<close> hands to \<open>Amqplib.connect\<close>.\<close>

definition target_of :: "adapter \<Rightarrow> uri" where
  "target_of s =
     (case url (opts s) of
        UrlArray us \<Rightarrow> url_of_attempt us (connectAttempt s + 1)
      | UrlOther u \<Rightarrow> u)"

section \<open>The consumer callback when the handler throws\<close>

text \<open>One delivery, by the branch the catch block takes.\<close>

lemma handler_redeliver:
  assumes "channel s = Some ch" "maxRetries (chans s ref) = Some N" "0 < N" "redeliveryCount msg < N"
  shows "createConsumerHandler ref msg False True s =
     Inr (s\<lparr>log := log s @
       [AddActive (chan_id (chans s ref)) (message_id msg),
        RemoveActive (chan_id (chans s ref)) (message_id msg),
        Publish [] (Some (queue_of (chans s ref))) (content msg)
          (no_options\<lparr>opt_headers :=
             Some ((msg_headers msg)\<lparr>x_redelivered_count := Some (redeliveryCount msg + 1)\<rparr>)\<rparr>),
        Ack (deliveryTag msg)]\<rparr>)"
  using assms
  by (simp add: createConsumerHandler_def on_failure_def publish_then_ack_def and_then_def
      on_channel_def emit_def no_retries_def retries_exhausted_def Let_def)

lemma handler_no_retries:
  assumes "channel s = Some ch" "no_retries (chans s ref)"
  shows "createConsumerHandler ref msg False True s =
     Inr (s\<lparr>log := log s @
       [AddActive (chan_id (chans s ref)) (message_id msg),
        RemoveActive (chan_id (chans s ref)) (message_id msg),
        Nack (deliveryTag msg) False False,
        Publish [] (Some (queue_of (chans s ref))) (content msg)
          (no_options\<lparr>opt_headers :=
             Some ((msg_headers msg)\<lparr>x_redelivered_count := Some (redeliveryCount msg + 1)\<rparr>)\<rparr>),
        Ack (deliveryTag msg)]\<rparr>)"
  using assms
  by (cases "maxRetries (chans s ref)")
    (simp_all add: createConsumerHandler_def on_failure_def publish_then_ack_def and_then_def
      on_channel_def emit_def no_retries_def retries_exhausted_def Let_def)

lemma handler_dead_letter:
  assumes "channel s = Some ch" "maxRetries (chans s ref) = Some N" "0 < N" "N \<le> redeliveryCount msg"
    "deadLettering (chans s ref) = Some dl" "enabled dl = Some True"
  shows "createConsumerHandler ref msg False True s =
     Inr (s\<lparr>log := log s @
       [AddActive (chan_id (chans s ref)) (message_id msg),
        RemoveActive (chan_id (chans s ref)) (message_id msg),
        Publish (case exchangeName dl of None \<Rightarrow> [] | Some e \<Rightarrow> e) (queueName dl) (content msg)
          (no_options\<lparr>opt_headers :=
             Some (no_headers\<lparr>x_original_channel := Some (chan_name (chans s ref))\<rparr>)\<rparr>),
        Ack (deliveryTag msg)]\<rparr>)"
  using assms
  by (simp add: createConsumerHandler_def on_failure_def publish_then_ack_def and_then_def
      on_channel_def emit_def no_retries_def retries_exhausted_def Let_def)

lemma handler_drop:
  assumes "channel s = Some ch" "maxRetries (chans s ref) = Some N" "0 < N" "N \<le> redeliveryCount msg"
    "deadLettering (chans s ref) = Some dl" "enabled dl \<noteq> Some True"
  shows "createConsumerHandler ref msg False res s =
     Inr (s\<lparr>log := log s @
       [AddActive (chan_id (chans s ref)) (message_id msg),
        RemoveActive (chan_id (chans s ref)) (message_id msg),
        Nack (deliveryTag msg) False False]\<rparr>)"
  using assms
  by (simp add: createConsumerHandler_def on_failure_def publish_then_ack_def and_then_def
      on_channel_def emit_def no_retries_def retries_exhausted_def Let_def)

lemma redelivered_simps:
  "content (redelivered msg (c, ops)) = c"
  "msg_headers (redelivered msg (c, no_options\<lparr>opt_headers := Some h\<rparr>)) = h"
  "msg_correlationId (redelivered msg (c, no_options\<lparr>opt_headers := Some h\<rparr>)) = None"
  "consumerTag (redelivered msg p) = consumerTag msg"
  "deliveryTag (redelivered msg p) = Suc (deliveryTag msg)"
  by (simp_all add: redelivered_def no_options_def)

text \<open>
  C1. The claim: when the handler fails on a channel whose effective maxRetries is zero
  or absent, the message is negatively acknowledged without requeue and no other routing
  action is taken. The callback does send the negative acknowledgment, but the branch of
  lines 323 to 327 does not return: the code goes on to line 329, finds the retries not
  exhausted, publishes the message to the channel's own queue with the redelivery count
  incremented and acknowledges the delivery it has just rejected.
\<close>

theorem no_retries_still_republishes:
  assumes "channel s = Some ch" and "no_retries (chans s ref)"
  shows "createConsumerHandler ref msg False True s =
     Inr (s\<lparr>log := log s @
       [AddActive (chan_id (chans s ref)) (message_id msg),
        RemoveActive (chan_id (chans s ref)) (message_id msg),
        Nack (deliveryTag msg) False False,
        republish (chans s ref) msg (redeliveryCount msg + 1),
        Ack (deliveryTag msg)]\<rparr>)"
  unfolding republish_def by (rule handler_no_retries [OF assms])

theorem no_retries_still_republishes_witness:
  "createConsumerHandler 0 first_delivery False True (running (orders (Some 0) False)) =
     Inr ((running (orders (Some 0) False))\<lparr>log :=
       [AddActive ''g.orders'' (ConsumerDelivery ''ctag'' 1),
        RemoveActive ''g.orders'' (ConsumerDelivery ''ctag'' 1),
        Nack 1 False False,
        Publish [] (Some ''g.orders'') ''payload''
          (no_options\<lparr>opt_headers := Some (no_headers\<lparr>x_redelivered_count := Some 2\<rparr>)\<rparr>),
        Ack 1]\<rparr>)"
  using no_retries_still_republishes [of "running (orders (Some 0) False)" 2 0 first_delivery]
  by (simp add: running_def orders_def first_delivery_def no_retries_def republish_def
      queue_of_def message_id_def redeliveryCount_def no_headers_def)

text \<open>
  With the republish accepted each time, such a message is never settled: every delivery
  puts it back into the queue.
\<close>

lemma no_retries_never_settles:
  assumes "channel s = Some ch" and "no_retries (chans s ref)" and "set ress \<subseteq> {True}"
  shows "fail_always ref msg ress s = None"
  using assms
proof (induction ress arbitrary: msg s)
  case Nil
  then show ?case by simp
next
  case (Cons res rest)
  let ?chan = "chans s ref"
  let ?ops = "no_options\<lparr>opt_headers :=
      Some ((msg_headers msg)\<lparr>x_redelivered_count := Some (redeliveryCount msg + 1)\<rparr>)\<rparr>"
  let ?e5 = "[AddActive (chan_id ?chan) (message_id msg),
        RemoveActive (chan_id ?chan) (message_id msg),
        Nack (deliveryTag msg) False False,
        Publish [] (Some (queue_of ?chan)) (content msg) ?ops,
        Ack (deliveryTag msg)]"
  let ?s1 = "s\<lparr>log := log s @ ?e5\<rparr>"
  from Cons.prems(3) have res: "res = True" and rest: "set rest \<subseteq> {True}" by simp_all
  have h: "createConsumerHandler ref msg False True s = Inr ?s1"
    by (rule handler_no_retries [OF Cons.prems(1,2)])
  have "fail_always ref (redelivered msg (content msg, ?ops)) rest ?s1 = None"
    by (rule Cons.IH) (use Cons.prems rest in simp_all)
  then show ?case
    by (simp add: res h)
qed

text \<open>
  A message whose handler always fails, from a delivery that carries the count
  \<open>redeliveryCount msg\<close> up to the delivery that settles it.
\<close>

lemma fail_always_from:
  assumes "channel s = Some ch" "maxRetries (chans s ref) = Some N"
    "deadLettering (chans s ref) = Some dl"
    "1 \<le> redeliveryCount msg" "redeliveryCount msg \<le> N"
    "n = nat (N - redeliveryCount msg)"
    "take (Suc n) ress = replicate (Suc n) True"
    "enabled dl = Some True \<Longrightarrow>
       requeued (queue_of (chans s ref)) [dl_publish (chans s ref) dl msg] = []"
  shows "\<exists>new. fail_always ref msg ress s = Some (Inr (s\<lparr>log := log s @ new\<rparr>)) \<and>
      filter is_publish new =
        map (\<lambda>k. Publish [] (Some (queue_of (chans s ref))) (content msg)
               (no_options\<lparr>opt_headers := Some ((msg_headers msg)\<lparr>x_redelivered_count := Some k\<rparr>)\<rparr>))
          [redeliveryCount msg + 1..N]
        @ (if enabled dl = Some True then [dl_publish (chans s ref) dl msg] else []) \<and>
      filter is_nack new =
        (if enabled dl = Some True then [] else [Nack (deliveryTag msg + n) False False]) \<and>
      filter is_ack new =
        map Ack [deliveryTag msg..<deliveryTag msg + n + (if enabled dl = Some True then 1 else 0)]"
  using assms
proof (induction n arbitrary: msg ress s)
  case 0
  then have exh: "N \<le> redeliveryCount msg" and pos: "0 < N" by simp_all
  from 0 obtain rest where ress: "ress = True # rest"
    by (cases ress) simp_all
  show ?case
  proof (cases "enabled dl = Some True")
    case True
    have h: "createConsumerHandler ref msg False True s =
      Inr (s\<lparr>log := log s @
       [AddActive (chan_id (chans s ref)) (message_id msg),
        RemoveActive (chan_id (chans s ref)) (message_id msg),
        dl_publish (chans s ref) dl msg,
        Ack (deliveryTag msg)]\<rparr>)"
      unfolding dl_publish_def
      by (rule handler_dead_letter [OF "0.prems"(1,2) pos exh "0.prems"(3) True])
    have rq: "requeued (queue_of (chans s ref)) [dl_publish (chans s ref) dl msg] = []"
      using "0.prems"(8) True by simp
    then have rq': "requeued (queue_of (chans s ref)) 
       [AddActive (chan_id (chans s ref)) (message_id msg),
        RemoveActive (chan_id (chans s ref)) (message_id msg),
        dl_publish (chans s ref) dl msg,
        Ack (deliveryTag msg)] = []"
      by (simp add: dl_publish_def split: if_splits)
    have eq: "[redeliveryCount msg + 1..N] = []" using exh by simp
    show ?thesis
      apply (rule exI [where x = "[AddActive (chan_id (chans s ref)) (message_id msg),
        RemoveActive (chan_id (chans s ref)) (message_id msg),
        dl_publish (chans s ref) dl msg,
        Ack (deliveryTag msg)]"])
      using True eq rq' by (simp add: ress h dl_publish_def)
  next
    case False
    have h: "createConsumerHandler ref msg False True s =
      Inr (s\<lparr>log := log s @
       [AddActive (chan_id (chans s ref)) (message_id msg),
        RemoveActive (chan_id (chans s ref)) (message_id msg),
        Nack (deliveryTag msg) False False]\<rparr>)"
      by (rule handler_drop [OF "0.prems"(1,2) pos exh "0.prems"(3) False])
    have eq: "[redeliveryCount msg + 1..N] = []" using exh by simp
    show ?thesis
      apply (rule exI [where x = "[AddActive (chan_id (chans s ref)) (message_id msg),
        RemoveActive (chan_id (chans s ref)) (message_id msg),
        Nack (deliveryTag msg) False False]"])
      using False eq by (simp add: ress h)
  qed
next
  case (Suc n)
  let ?chan = "chans s ref"
  let ?c = "redeliveryCount msg"
  let ?h = "(msg_headers msg)\<lparr>x_redelivered_count := Some (?c + 1)\<rparr>"
  let ?ops = "no_options\<lparr>opt_headers := Some ?h\<rparr>"
  let ?e4 = "[AddActive (chan_id ?chan) (message_id msg),
        RemoveActive (chan_id ?chan) (message_id msg),
        Publish [] (Some (queue_of ?chan)) (content msg) ?ops,
        Ack (deliveryTag msg)]"
  let ?s1 = "s\<lparr>log := log s @ ?e4\<rparr>"
  let ?msg' = "redelivered msg (content msg, ?ops)"
  from Suc.prems have lt: "?c < N" and pos: "0 < N" by simp_all
  from Suc.prems obtain rest where ress: "ress = True # rest"
    and rest: "take (Suc n) rest = replicate (Suc n) True"
    by (cases ress) simp_all
  have h: "createConsumerHandler ref msg False True s = Inr ?s1"
    by (rule handler_redeliver [OF Suc.prems(1,2) pos lt])
  have rq: "requeued (queue_of ?chan) ?e4 = [(content msg, ?ops)]"
    by simp
  have step: "fail_always ref msg ress s = fail_always ref ?msg' rest ?s1"
    by (simp add: ress h rq)
  have c': "redeliveryCount ?msg' = ?c + 1"
    using Suc.prems(4) by (simp add: redeliveryCount_def redelivered_simps)
  have dlp: "dl_publish (chans ?s1 ref) dl ?msg' = dl_publish ?chan dl msg"
    by (simp add: dl_publish_def redelivered_simps)
  have "\<exists>new. fail_always ref ?msg' rest ?s1 = Some (Inr (?s1\<lparr>log := log ?s1 @ new\<rparr>)) \<and>
      filter is_publish new =
        map (\<lambda>k. Publish [] (Some (queue_of (chans ?s1 ref))) (content ?msg')
               (no_options\<lparr>opt_headers := Some ((msg_headers ?msg')\<lparr>x_redelivered_count := Some k\<rparr>)\<rparr>))
          [redeliveryCount ?msg' + 1..N]
        @ (if enabled dl = Some True then [dl_publish (chans ?s1 ref) dl ?msg'] else []) \<and>
      filter is_nack new =
        (if enabled dl = Some True then [] else [Nack (deliveryTag ?msg' + n) False False]) \<and>
      filter is_ack new =
        map Ack [deliveryTag ?msg'..<deliveryTag ?msg' + n + (if enabled dl = Some True then 1 else 0)]"
  proof (rule Suc.IH)
    show "channel ?s1 = Some ch" using Suc.prems(1) by simp
    show "maxRetries (chans ?s1 ref) = Some N" using Suc.prems(2) by simp
    show "deadLettering (chans ?s1 ref) = Some dl" using Suc.prems(3) by simp
    show "1 \<le> redeliveryCount ?msg'" using c' Suc.prems(4) by simp
    show "redeliveryCount ?msg' \<le> N" using c' lt by simp
    show "n = nat (N - redeliveryCount ?msg')" using c' Suc.prems(6) by simp
    show "take (Suc n) rest = replicate (Suc n) True" by (rule rest)
    show "requeued (queue_of (chans ?s1 ref)) [dl_publish (chans ?s1 ref) dl ?msg'] = []"
      if "enabled dl = Some True"
      using Suc.prems(8) [OF that] dlp by simp
  qed
  then obtain new where
    run: "fail_always ref ?msg' rest ?s1 = Some (Inr (?s1\<lparr>log := log ?s1 @ new\<rparr>))" and
    pubs: "filter is_publish new =
        map (\<lambda>k. Publish [] (Some (queue_of ?chan)) (content msg)
               (no_options\<lparr>opt_headers := Some ((msg_headers msg)\<lparr>x_redelivered_count := Some k\<rparr>)\<rparr>))
          [?c + 2..N]
        @ (if enabled dl = Some True then [dl_publish ?chan dl msg] else [])" and
    nacks: "filter is_nack new =
        (if enabled dl = Some True then [] else [Nack (deliveryTag msg + Suc n) False False])" and
    acks: "filter is_ack new =
        map Ack [Suc (deliveryTag msg)..<deliveryTag msg + Suc n + (if enabled dl = Some True then 1 else 0)]"
    using c' dlp by (auto simp add: redelivered_simps add.commute)
  have up: "[?c + 1..N] = (?c + 1) # [?c + 2..N]"
  proof -
    have "[?c + 1..N] = (?c + 1) # [?c + 1 + 1..N]"
      using lt by (subst upto_rec1) simp_all
    moreover have "?c + 1 + 1 = ?c + 2" by simp
    ultimately show ?thesis by (simp only:)
  qed
  have upn: "[deliveryTag msg..<deliveryTag msg + Suc n + (if enabled dl = Some True then 1 else 0)]
     = deliveryTag msg # [Suc (deliveryTag msg)..<deliveryTag msg + Suc n + (if enabled dl = Some True then 1 else 0)]"
    by (simp add: upt_conv_Cons)
  show ?case
    apply (rule exI [where x = "?e4 @ new"])
    apply (simp only: step run)
    using pubs nacks acks up upn by simp
qed

lemma requeued_filter: "requeued q (filter is_publish es) = requeued q es"
  by (induction q es rule: requeued.induct) simp_all

lemma requeued_republishes:
  "requeued (queue_of chan) (map (republish chan msg) ks) =
     map (\<lambda>k. (content msg,
       no_options\<lparr>opt_headers := Some ((msg_headers msg)\<lparr>x_redelivered_count := Some k\<rparr>)\<rparr>)) ks"
  by (induction ks) (simp_all add: republish_def)

lemma requeued_append: "requeued q (xs @ ys) = requeued q xs @ requeued q ys"
  by (induction q xs rule: requeued.induct) simp_all

text \<open>
  C2. On a channel with effective maxRetries \<open>N > 0\<close>, a message that arrives
  without the x-redelivered-count header and whose handler fails on every delivery is
  published to its own queue exactly \<open>N - 1\<close> times, with the header set to
  \<open>2, 3, \<dots>, N\<close> in turn; on the delivery that carries \<open>N\<close> it is
  published to the dead-letter destination if dead-lettering is enabled, and negatively
  acknowledged without requeue if not. Nothing else is published. The transport accepts
  the publishes of the \<open>N\<close> deliveries, and a dead-letter destination is not the
  channel's own queue.
\<close>

theorem retries_then_settled:
  assumes "channel s = Some ch"
    and "maxRetries (chans s ref) = Some N" and "0 < N"
    and "deadLettering (chans s ref) = Some dl"
    and "x_redelivered_count (msg_headers msg) = None"
    and "take (nat N) ress = replicate (nat N) True"
    and "enabled dl = Some True \<Longrightarrow>
           queueName dl \<noteq> Some (queue_of (chans s ref)) \<or>
           (exchangeName dl \<noteq> None \<and> exchangeName dl \<noteq> Some [])"
  shows "\<exists>new. fail_always ref msg ress s = Some (Inr (s\<lparr>log := log s @ new\<rparr>)) \<and>
      requeued (queue_of (chans s ref)) new =
        map (\<lambda>k. (content msg,
          no_options\<lparr>opt_headers := Some ((msg_headers msg)\<lparr>x_redelivered_count := Some k\<rparr>)\<rparr>)) [2..N] \<and>
      length (requeued (queue_of (chans s ref)) new) = nat N - 1 \<and>
      filter is_publish new =
        map (republish (chans s ref) msg) [2..N]
        @ (if enabled dl = Some True then [dl_publish (chans s ref) dl msg] else []) \<and>
      filter is_nack new =
        (if enabled dl = Some True then []
         else [Nack (deliveryTag msg + (nat N - 1)) False False]) \<and>
      filter is_ack new =
        map Ack [deliveryTag msg..<
                 deliveryTag msg + (nat N - 1) + (if enabled dl = Some True then 1 else 0)]"
proof -
  have c: "redeliveryCount msg = 1"
    using assms(5) by (simp add: redeliveryCount_def)
  have n: "nat N - 1 = nat (N - redeliveryCount msg)"
    using assms(3) c by simp
  have tk: "take (Suc (nat N - 1)) ress = replicate (Suc (nat N - 1)) True"
    using assms(3,6) by simp
  have elsewhere: "requeued (queue_of (chans s ref)) [dl_publish (chans s ref) dl msg] = []"
    if "enabled dl = Some True"
    using assms(7) [OF that] by (auto simp add: dl_publish_def split: option.splits)
  from fail_always_from [OF assms(1,2,4) _ _ n tk elsewhere] c assms(3)
  obtain new where
    run: "fail_always ref msg ress s = Some (Inr (s\<lparr>log := log s @ new\<rparr>))" and
    pubs: "filter is_publish new =
        map (republish (chans s ref) msg) [2..N]
        @ (if enabled dl = Some True then [dl_publish (chans s ref) dl msg] else [])" and
    nacks: "filter is_nack new =
        (if enabled dl = Some True then []
         else [Nack (deliveryTag msg + (nat N - 1)) False False])" and
    acks: "filter is_ack new =
        map Ack [deliveryTag msg..<
                 deliveryTag msg + (nat N - 1) + (if enabled dl = Some True then 1 else 0)]"
    by (auto simp add: republish_def)
  have "requeued (queue_of (chans s ref)) new =
      requeued (queue_of (chans s ref)) (filter is_publish new)"
    by (simp add: requeued_filter)
  also have "\<dots> = map (\<lambda>k. (content msg,
          no_options\<lparr>opt_headers := Some ((msg_headers msg)\<lparr>x_redelivered_count := Some k\<rparr>)\<rparr>)) [2..N]"
    using elsewhere by (simp add: pubs requeued_append requeued_republishes)
  finally have rq: "requeued (queue_of (chans s ref)) new =
      map (\<lambda>k. (content msg,
          no_options\<lparr>opt_headers := Some ((msg_headers msg)\<lparr>x_redelivered_count := Some k\<rparr>)\<rparr>)) [2..N]" .
  have len: "length (requeued (queue_of (chans s ref)) new) = nat N - 1"
    using assms(3) by (simp add: rq)
  from run rq len pubs nacks acks show ?thesis by blast
qed

theorem retries_then_settled_witness:
  "\<exists>new. fail_always 0 first_delivery [True, True, True] (running (orders (Some 3) False)) =
       Some (Inr ((running (orders (Some 3) False))\<lparr>log := new\<rparr>)) \<and>
     requeued ''g.orders'' new =
       [(''payload'', no_options\<lparr>opt_headers := Some (no_headers\<lparr>x_redelivered_count := Some 2\<rparr>)\<rparr>),
        (''payload'', no_options\<lparr>opt_headers := Some (no_headers\<lparr>x_redelivered_count := Some 3\<rparr>)\<rparr>)] \<and>
     filter is_nack new = [Nack 3 False False]"
proof -
  let ?s = "running (orders (Some 3) False)"
  let ?dl = "\<lparr>enabled = Some False, queueName = Some ''DLQ'', exchangeName = None\<rparr>"
  have h1: "channel ?s = Some 2" by (simp add: running_def)
  have h2: "maxRetries (chans ?s 0) = Some 3" by (simp add: running_def orders_def)
  have h3: "(0::int) < 3" by simp
  have h4: "deadLettering (chans ?s 0) = Some ?dl" by (simp add: running_def orders_def)
  have h5: "x_redelivered_count (msg_headers first_delivery) = None"
    by (simp add: first_delivery_def no_headers_def)
  have h6: "take (nat 3) [True, True, True] = replicate (nat 3) True"
    by (simp add: eval_nat_numeral)
  have h7: "queueName ?dl \<noteq> Some (queue_of (chans ?s 0)) \<or>
      (exchangeName ?dl \<noteq> None \<and> exchangeName ?dl \<noteq> Some [])"
    by (simp add: running_def orders_def queue_of_def)
  have q: "queue_of (chans ?s 0) = ''g.orders''"
    by (simp add: running_def orders_def queue_of_def)
  have l: "log ?s = []" by (simp add: running_def)
  have m: "content first_delivery = ''payload''" "msg_headers first_delivery = no_headers"
    "deliveryTag first_delivery = 1"
    by (simp_all add: first_delivery_def)
  have up: "[2..3::int] = [2, 3]" by (simp add: upto_rec1)
  from retries_then_settled [OF h1 h2 h3 h4 h5 h6 h7]
  obtain new where
    "fail_always 0 first_delivery [True, True, True] ?s = Some (Inr (?s\<lparr>log := log ?s @ new\<rparr>))"
    "requeued (queue_of (chans ?s 0)) new =
        map (\<lambda>k. (content first_delivery,
          no_options\<lparr>opt_headers := Some ((msg_headers first_delivery)\<lparr>x_redelivered_count := Some k\<rparr>)\<rparr>)) [2..3]"
    "filter is_nack new =
        (if enabled ?dl = Some True then []
         else [Nack (deliveryTag first_delivery + (nat 3 - 1)) False False])"
    by blast
  then have "fail_always 0 first_delivery [True, True, True] ?s = Some (Inr (?s\<lparr>log := new\<rparr>)) \<and>
     requeued ''g.orders'' new =
       [(''payload'', no_options\<lparr>opt_headers := Some (no_headers\<lparr>x_redelivered_count := Some 2\<rparr>)\<rparr>),
        (''payload'', no_options\<lparr>opt_headers := Some (no_headers\<lparr>x_redelivered_count := Some 3\<rparr>)\<rparr>)] \<and>
     filter is_nack new = [Nack 3 False False]"
    by (simp add: q l m up)
  then show ?thesis by blast
qed

lemma queue_has_dot: "CHR ''.'' \<in> set (queue_of chan)"
  by (simp add: queue_of_def)

lemma dlq_not_own_queue: "queue_of chan \<noteq> ''DLQ''"
proof
  assume "queue_of chan = ''DLQ''"
  then have "CHR ''.'' \<in> set ''DLQ''" using queue_has_dot [of chan] by simp
  then show False by simp
qed

text \<open>
  C5. On a channel with effective maxRetries 2 and dead-lettering enabled with queue name
  "DLQ", a message whose handler throws on every delivery is, on its second delivery,
  published with its content unchanged and the header x-original-channel set to the
  channel's name to the routing key "DLQ" on the configured dead-letter exchange (the
  default exchange when none is configured), and that delivery is acknowledged. The first
  delivery was put back into the channel's queue with the count 2 and acknowledged. The
  transport accepts both publishes.
\<close>

theorem two_deliveries_then_dead_letter:
  assumes "channel s = Some ch"
    and "maxRetries (chans s ref) = Some 2"
    and "deadLettering (chans s ref) = Some dl"
    and "enabled dl = Some True"
    and "queueName dl = Some ''DLQ''"
    and "x_redelivered_count (msg_headers msg) = None"
    and "take 2 ress = [True, True]"
  shows "fail_always ref msg ress s =
     Some (Inr (s\<lparr>log := log s @
       [AddActive (chan_id (chans s ref)) (message_id msg),
        RemoveActive (chan_id (chans s ref)) (message_id msg),
        Publish [] (Some (queue_of (chans s ref))) (content msg)
          (no_options\<lparr>opt_headers := Some ((msg_headers msg)\<lparr>x_redelivered_count := Some 2\<rparr>)\<rparr>),
        Ack (deliveryTag msg),
        AddActive (chan_id (chans s ref)) (ConsumerDelivery (consumerTag msg) (Suc (deliveryTag msg))),
        RemoveActive (chan_id (chans s ref)) (ConsumerDelivery (consumerTag msg) (Suc (deliveryTag msg))),
        Publish (case exchangeName dl of None \<Rightarrow> [] | Some e \<Rightarrow> e) (Some ''DLQ'') (content msg)
          (no_options\<lparr>opt_headers :=
             Some (no_headers\<lparr>x_original_channel := Some (chan_name (chans s ref))\<rparr>)\<rparr>),
        Ack (Suc (deliveryTag msg))]\<rparr>))"
proof -
  let ?chan = "chans s ref"
  let ?ops = "no_options\<lparr>opt_headers := Some ((msg_headers msg)\<lparr>x_redelivered_count := Some 2\<rparr>)\<rparr>"
  let ?e1 = "[AddActive (chan_id ?chan) (message_id msg),
        RemoveActive (chan_id ?chan) (message_id msg),
        Publish [] (Some (queue_of ?chan)) (content msg) ?ops,
        Ack (deliveryTag msg)]"
  let ?s1 = "s\<lparr>log := log s @ ?e1\<rparr>"
  let ?msg' = "redelivered msg (content msg, ?ops)"
  from assms(7) obtain rest where ress: "ress = True # True # rest"
    by (cases ress; cases "tl ress") auto
  have c: "redeliveryCount msg = 1"
    using assms(6) by (simp add: redeliveryCount_def)
  have h1: "createConsumerHandler ref msg False True s = Inr ?s1"
    using handler_redeliver [OF assms(1,2), of msg] c by simp
  have c': "redeliveryCount ?msg' = 2"
    by (simp add: redeliveryCount_def redelivered_simps)
  have id': "message_id ?msg' = ConsumerDelivery (consumerTag msg) (Suc (deliveryTag msg))"
    by (simp add: message_id_def redelivered_simps)
  have h2: "createConsumerHandler ref ?msg' False True ?s1 =
      Inr (?s1\<lparr>log := log ?s1 @
       [AddActive (chan_id ?chan) (message_id ?msg'),
        RemoveActive (chan_id ?chan) (message_id ?msg'),
        Publish (case exchangeName dl of None \<Rightarrow> [] | Some e \<Rightarrow> e) (queueName dl) (content ?msg')
          (no_options\<lparr>opt_headers :=
             Some (no_headers\<lparr>x_original_channel := Some (chan_name ?chan)\<rparr>)\<rparr>),
        Ack (deliveryTag ?msg')]\<rparr>)"
    using handler_dead_letter [of ?s1 ch ref 2 ?msg' dl] assms(1-4) c' by simp
  have neq: "queue_of ?chan \<noteq> ''DLQ''" by (rule dlq_not_own_queue)
  show ?thesis
    using neq by (simp add: ress h1 h2 id' assms(5) redelivered_simps)
qed

theorem two_deliveries_then_dead_letter_witness:
  "fail_always 0 first_delivery [True, True] (running (orders (Some 2) True)) =
     Some (Inr ((running (orders (Some 2) True))\<lparr>log :=
       [AddActive ''g.orders'' (ConsumerDelivery ''ctag'' 1),
        RemoveActive ''g.orders'' (ConsumerDelivery ''ctag'' 1),
        Publish [] (Some ''g.orders'') ''payload''
          (no_options\<lparr>opt_headers := Some (no_headers\<lparr>x_redelivered_count := Some 2\<rparr>)\<rparr>),
        Ack 1,
        AddActive ''g.orders'' (ConsumerDelivery ''ctag'' 2),
        RemoveActive ''g.orders'' (ConsumerDelivery ''ctag'' 2),
        Publish [] (Some ''DLQ'') ''payload''
          (no_options\<lparr>opt_headers := Some (no_headers\<lparr>x_original_channel := Some ''orders''\<rparr>)\<rparr>),
        Ack 2]\<rparr>))"
  using two_deliveries_then_dead_letter [of "running (orders (Some 2) True)" 2 0
      "\<lparr>enabled = Some True, queueName = Some ''DLQ'', exchangeName = None\<rparr>"
      first_delivery "[True, True]"]
  by (simp add: running_def orders_def first_delivery_def no_headers_def queue_of_def
      message_id_def)

section \<open>Unsubscribing\<close>

lemma checkPendingMessages_eq:
  "checkPendingMessages cid counts s =
     (if 0 \<in> set counts
      then Some (s\<lparr>log := log s @ replicate (length (takeWhile (\<lambda>n. n \<noteq> 0) counts)) (SetTimeout 1000)
                       @ [StopActive cid]\<rparr>)
      else None)"
proof (induction counts arbitrary: s)
  case Nil
  then show ?case by simp
next
  case (Cons n ns)
  show ?case
  proof (cases "n = 0")
    case True
    then show ?thesis by (simp add: emit_def)
  next
    case False
    then show ?thesis
      by (simp add: Cons.IH emit_def replicate_app_Cons_same)
  qed
qed

text \<open>
  C6. For a descriptor that has an entry in the subscription table, \<open>unsubscribe\<close>
  first cancels the consumer under the entry's tag, then sets a timer of 1000 ms after
  every poll that counts active messages, and returns at the first poll that counts
  none, having stopped the tracking of the channel as its last call. While no poll counts
  zero it does not return.
\<close>

theorem unsubscribe_waits_for_zero:
  assumes "map_of (subscriptions s) (chan_id (chans s ref)) = Some (r, tag)"
    and "channel s = Some ch"
  shows "unsubscribe ref counts s =
     (if 0 \<in> set counts
      then Some (Inr (s\<lparr>log := log s @ Cancel tag #
             replicate (length (takeWhile (\<lambda>n. n \<noteq> 0) counts)) (SetTimeout 1000)
             @ [StopActive (chan_id (chans s ref))]\<rparr>))
      else None)"
  using assms
  by (simp add: unsubscribe_def on_channel_def emit_def checkPendingMessages_eq)

theorem unsubscribe_waits_for_zero_witness:
  "unsubscribe 0 [2, 1, 0, 5] (running (orders (Some 3) False)) =
     Some (Inr ((running (orders (Some 3) False))\<lparr>log :=
       [Cancel ''ctag'', SetTimeout 1000, SetTimeout 1000, StopActive ''g.orders'']\<rparr>)) \<and>
   unsubscribe 0 [2, 1] (running (orders (Some 3) False)) = None"
  using unsubscribe_waits_for_zero [of "running (orders (Some 3) False)" 0 0 "''ctag''" 2 "[2, 1, 0, 5]"]
    unsubscribe_waits_for_zero [of "running (orders (Some 3) False)" 0 0 "''ctag''" 2 "[2, 1]"]
  by (simp add: running_def orders_def)

text \<open>
  C10. \<open>unsubscribe\<close> for a descriptor whose id has no entry in the subscription
  table throws a TypeError (the lookup yields undefined, and line 387 destructures it),
  before any call on the channel.
\<close>

theorem unsubscribe_unknown_throws:
  assumes "map_of (subscriptions s) (chan_id (chans s ref)) = None"
  shows "unsubscribe ref counts s = Some (Inl (TypeError, s))"
  using assms by (simp add: unsubscribe_def)

theorem unsubscribe_unknown_throws_witness:
  "unsubscribe 0 [0] idle = Some (Inl (TypeError, idle))"
  using unsubscribe_unknown_throws [of idle 0 "[0]"]
  by (simp add: idle_def new_adapter_def)

section \<open>Publishing and disconnecting\<close>

lemma emit_neq: "emit e s \<noteq> s"
proof
  assume "emit e s = s"
  then have "log (emit e s) = log s" by simp
  then show False by (simp add: emit_def)
qed

lemma publish_noop_iff:
  "(publish serialize channelName payload popts res s = Inr s) = stopping s"
  by (cases "channel s")
    (auto simp add: publish_def and_then_def on_channel_def Let_def emit_neq)

text \<open>
  C7. The claim: whenever the adapter is disconnected or stopping, \<open>publish\<close> is
  a silent no-op. The guard of line 440 reads \<open>stopping\<close> only. An adapter that
  has never connected is disconnected and not stopping, and its \<open>publish\<close>
  throws a TypeError on the null channel; an adapter whose connection has closed keeps
  its channel object, and its \<open>publish\<close> hands the message to it.
\<close>

theorem publish_while_disconnected:
  "connected idle = False \<and> stopping idle = False \<and>
   publish id ''orders'' ''payload'' plain_publish True idle = Inl (TypeError, idle) \<and>
   connected (on_close (running (orders (Some 3) False))) = False \<and>
   log (on_close (running (orders (Some 3) False))) = [SetTimeout 2000] \<and>
   publish id ''orders'' ''payload'' plain_publish True (on_close (running (orders (Some 3) False))) =
     Inr ((on_close (running (orders (Some 3) False)))\<lparr>log :=
       [SetTimeout 2000, Publish ''orders'' (Some []) ''payload'' no_options]\<rparr>)"
  by (simp add: idle_def new_adapter_def running_def on_close_def publish_def and_then_def
      on_channel_def emit_def plain_publish_def two_hosts_def plain_opts_def
      options_defaultsDeep_def headers_defaultsDeep_def defaults_def no_options_def Let_def)

text \<open>
  C7, amended. Whenever the adapter is stopping, \<open>publish\<close> returns without an
  error and leaves the adapter as it was: nothing is handed to the transport.
\<close>

theorem publish_while_stopping:
  assumes "stopping s"
  shows "publish serialize channelName payload popts res s = Inr s"
  using assms by (simp add: publish_def)

theorem publish_while_stopping_witness:
  "publish id ''orders'' ''payload'' plain_publish True ((running (orders (Some 3) False))\<lparr>stopping := True\<rparr>) =
     Inr ((running (orders (Some 3) False))\<lparr>stopping := True\<rparr>) \<and>
   log ((running (orders (Some 3) False))\<lparr>stopping := True\<rparr>) = []"
  using publish_while_stopping [of "(running (orders (Some 3) False))\<lparr>stopping := True\<rparr>"
      id "''orders''" "''payload''" plain_publish True]
  by (simp add: running_def)

text \<open>
  C8. When the adapter is not stopping and has a channel, and \<open>channel.publish\<close>
  returns false, \<open>publish\<close> throws the MoleculerError "AMQP publish error. Write
  buffer is full."; the message has been handed to the channel once, and nothing else
  has been done.
\<close>

theorem publish_buffer_full:
  assumes "\<not> stopping s" and "channel s = Some ch"
  shows "publish serialize channelName payload popts False s =
     Inl (MoleculerError ''AMQP publish error. Write buffer is full.'',
          s\<lparr>log := log s @
            [Publish channelName (Some [])
               (if raw popts then payload else serialize payload)
               (options_defaultsDeep
                  \<lparr>persistent = po_persistent popts, expiration = ttl popts,
                   priority = po_priority popts, correlationId = po_correlationId popts,
                   opt_headers = po_headers popts\<rparr>
                  (messageOptions (opts s)))]\<rparr>)"
  using assms
  by (simp add: publish_def and_then_def on_channel_def emit_def buffer_full_def Let_def)

theorem publish_buffer_full_witness:
  "publish id ''orders'' ''payload'' plain_publish False (running (orders (Some 3) False)) =
     Inl (MoleculerError ''AMQP publish error. Write buffer is full.'',
          (running (orders (Some 3) False))\<lparr>log :=
            [Publish ''orders'' (Some []) ''payload'' no_options]\<rparr>)"
  using publish_buffer_full [of "running (orders (Some 3) False)" 2 id "''orders''" "''payload''"
      plain_publish]
  by (simp add: running_def plain_publish_def two_hosts_def plain_opts_def
      options_defaultsDeep_def headers_defaultsDeep_def defaults_def no_options_def)

text \<open>
  C9. A \<open>disconnect\<close> called on an adapter that is not already stopping leaves the
  stopping flag false, whether closing the connection succeeded or failed, and a
  \<open>publish\<close> after it is not the silent no-op of the stopping guard: it goes on to
  the channel.
\<close>

theorem disconnect_resets_stopping:
  assumes "\<not> stopping s"
  shows "\<not> stopping (disconnect closed s) \<and>
     publish serialize channelName payload popts res (disconnect closed s)
       \<noteq> Inr (disconnect closed s)"
proof -
  have "\<not> stopping (disconnect closed s)"
    using assms by (simp add: disconnect_def Let_def split: option.splits)
  then show ?thesis by (simp add: publish_noop_iff)
qed

theorem disconnect_resets_stopping_witness:
  "stopping (disconnect True (running (orders (Some 3) False))) = False \<and>
   stopping (disconnect False (running (orders (Some 3) False))) = False \<and>
   publish id ''orders'' ''payload'' plain_publish True (disconnect True (running (orders (Some 3) False)))
     = Inl (TypeError, disconnect True (running (orders (Some 3) False)))"
  using disconnect_resets_stopping [of "running (orders (Some 3) False)" True]
    disconnect_resets_stopping [of "running (orders (Some 3) False)" False]
  by (simp add: running_def disconnect_def on_close_def emit_def publish_def and_then_def
      on_channel_def Let_def)

section \<open>Connecting, subscribing and re-subscribing\<close>

lemma backfill_names:
  "chan_id (backfill f os chan) = chan_id chan"
  "chan_name (backfill f os chan) = chan_name chan"
  "chan_group (backfill f os chan) = chan_group chan"
  "queue_of (backfill f os chan) = queue_of chan"
  by (simp_all add: backfill_def queue_of_def Let_def split: option.splits)

lemma subscribe_ok:
  assumes "channel s = Some ch"
  shows "subscribe f tag ref s =
     Inr (s\<lparr>chans := (chans s)(ref := backfill f (opts s) (chans s ref)),
            log := log s @
              [AssertExchange (chan_name (chans s ref)),
               AssertQueue (queue_of (chans s ref)),
               BindQueue (queue_of (chans s ref)) (chan_name (chans s ref)),
               InitActive (chan_id (chans s ref)),
               Consume (queue_of (chans s ref))],
            subscriptions := map_set (chan_id (chans s ref)) (ref, tag) (subscriptions s)\<rparr>)"
  using assms
  by (simp add: subscribe_def and_then_def on_channel_def emit_def Let_def backfill_names)

lemma resubscribe_each_ok:
  assumes "channel s = Some ch"
  shows "\<exists>s'. resubscribe_each f tags i es s = Inr s' \<and>
     chans s' = backfilled f (opts s) (map fst es) (chans s) \<and>
     attempts s' = attempts s \<and> opts s' = opts s \<and> channel s' = channel s \<and>
     stopping s' = stopping s \<and> connectAttempt s' = connectAttempt s \<and>
     connectionCount s' = connectionCount s"
  using assms
proof (induction es arbitrary: s i)
  case Nil
  then show ?case by simp
next
  case (Cons e es)
  let ?s1 = "s\<lparr>chans := (chans s)(fst e := backfill f (opts s) (chans s (fst e))),
            log := log s @
              [AssertExchange (chan_name (chans s (fst e))),
               AssertQueue (queue_of (chans s (fst e))),
               BindQueue (queue_of (chans s (fst e))) (chan_name (chans s (fst e))),
               InitActive (chan_id (chans s (fst e))),
               Consume (queue_of (chans s (fst e)))],
            subscriptions := map_set (chan_id (chans s (fst e))) (fst e, tags i) (subscriptions s)\<rparr>"
  have sub: "subscribe f (tags i) (fst e) s = Inr ?s1"
    by (rule subscribe_ok [OF Cons.prems])
  have ch: "channel ?s1 = Some ch" using Cons.prems by simp
  from Cons.IH [OF ch, of "Suc i"] obtain s' where
    "resubscribe_each f tags (Suc i) es ?s1 = Inr s'"
    "chans s' = backfilled f (opts ?s1) (map fst es) (chans ?s1)"
    "attempts s' = attempts ?s1" "opts s' = opts ?s1" "channel s' = channel ?s1"
    "stopping s' = stopping ?s1" "connectAttempt s' = connectAttempt ?s1"
    "connectionCount s' = connectionCount ?s1"
    by blast
  then show ?case
    by (simp add: sub and_then_def attempts_def)
qed

lemma tryConnect_rejected:
  "tryConnect f tags False s =
     Inl (ConnectError,
          (case url (opts s) of UrlArray us \<Rightarrow> s\<lparr>connectAttempt := connectAttempt s + 1\<rparr> | UrlOther u \<Rightarrow> s)
            \<lparr>log := log s @ [Connect (target_of s)]\<rparr>)"
  by (simp add: tryConnect_def target_of_def emit_def Let_def split: amqp_url.splits)

lemma tryConnect_accepted:
  "\<exists>s'. tryConnect f tags True s = Inr s' \<and>
     attempts s' = attempts s @ [Connect (target_of s)] \<and>
     chans s' = (if 0 < connectionCount s
                 then backfilled f (opts s) (map (fst \<circ> snd) (subscriptions s)) (chans s)
                 else chans s) \<and>
     opts s' = opts s \<and> channel s' \<noteq> None \<and> stopping s' = stopping s \<and>
     connectionCount s' = connectionCount s + 1 \<and>
     (0 < connectionCount s \<or> subscriptions s' = subscriptions s)"
proof -
  define s7 where "s7 =
    (let s1 = (case url (opts s) of
                  UrlArray us \<Rightarrow> s\<lparr>connectAttempt := connectAttempt s + 1\<rparr>
                | UrlOther u \<Rightarrow> s);
         s2 = emit (Connect (target_of s)) s1;
         s3 = s2\<lparr>connection := Some (length (log s2)), connected := True\<rparr>;
         s4 = emit CreateChannel s3;
         s5 = s4\<lparr>channel := Some (length (log s4))\<rparr>;
         s6 = (case prefetch (opts s5) of None \<Rightarrow> s5 | Some n \<Rightarrow> emit (Prefetch n) s5)
     in s6\<lparr>connectionCount := connectionCount s6 + 1\<rparr>)"
  have unf: "tryConnect f tags True s =
     (if 1 < connectionCount s7 then resubscribeAllChannels f tags s7 else Inr s7)"
    unfolding s7_def
    by (cases "url (opts s)"; cases "prefetch (opts s)")
      (simp_all add: tryConnect_def target_of_def Let_def emit_def)
  have p7: "attempts s7 = attempts s @ [Connect (target_of s)]"
    "chans s7 = chans s" "opts s7 = opts s" "channel s7 = Some (Suc (Suc (length (log s))))"
    "stopping s7 = stopping s" "connectionCount s7 = connectionCount s + 1"
    "subscriptions s7 = subscriptions s"
    unfolding s7_def
    by (cases "url (opts s)"; cases "prefetch (opts s)";
        simp add: attempts_def emit_def Let_def)+
  show ?thesis
  proof (cases "0 < connectionCount s")
    case True
    from resubscribe_each_ok [OF p7(4), of f tags 0 "map snd (subscriptions s7)"]
    obtain s' where
      "resubscribe_each f tags 0 (map snd (subscriptions s7)) s7 = Inr s'"
      "chans s' = backfilled f (opts s7) (map fst (map snd (subscriptions s7))) (chans s7)"
      "attempts s' = attempts s7" "opts s' = opts s7" "channel s' = channel s7"
      "stopping s' = stopping s7" "connectionCount s' = connectionCount s7"
      by blast
    then show ?thesis
      using True by (simp add: unf p7 resubscribeAllChannels_def)
  next
    case False
    then show ?thesis
      by (simp add: unf p7)
  qed
qed

lemma connect_after_failures:
  assumes "url (opts s) = UrlArray us" and "us \<noteq> []"
  shows "map_option attempts (connect f tags (replicate k False @ [True]) s) =
     Some (attempts s @
       map (\<lambda>i. Connect (Uri (us ! ((connectAttempt s + i) mod length us)))) [0..<Suc k])"
  using assms
proof (induction k arbitrary: s)
  case 0
  from tryConnect_accepted [of f tags s] obtain s' where
    "tryConnect f tags True s = Inr s'" "attempts s' = attempts s @ [Connect (target_of s)]"
    by blast
  then show ?case
    using 0 by (simp add: target_of_def url_of_attempt_def)
next
  case (Suc k)
  let ?s1 = "s\<lparr>connectAttempt := connectAttempt s + 1, log := log s @ [Connect (target_of s)]\<rparr>"
  have rej: "tryConnect f tags False s = Inl (ConnectError, ?s1)"
    using Suc.prems by (simp add: tryConnect_rejected)
  have "map_option attempts (connect f tags (replicate k False @ [True]) (emit (SetTimeout 2000) ?s1)) =
     Some (attempts (emit (SetTimeout 2000) ?s1) @
       map (\<lambda>i. Connect (Uri (us ! ((connectAttempt (emit (SetTimeout 2000) ?s1) + i) mod length us)))) [0..<Suc k])"
    by (rule Suc.IH) (use Suc.prems in \<open>simp_all add: emit_def\<close>)
  moreover have "attempts (emit (SetTimeout 2000) ?s1) = attempts s @ [Connect (Uri (us ! (connectAttempt s mod length us)))]"
    using Suc.prems by (simp add: attempts_def emit_def target_of_def url_of_attempt_def)
  moreover have "connectAttempt (emit (SetTimeout 2000) ?s1) = Suc (connectAttempt s)"
    by (simp add: emit_def)
  moreover have "map (\<lambda>i. Connect (Uri (us ! ((connectAttempt s + i) mod length us)))) [0..<Suc (Suc k)]
     = Connect (Uri (us ! (connectAttempt s mod length us))) #
       map (\<lambda>i. Connect (Uri (us ! ((Suc (connectAttempt s) + i) mod length us)))) [0..<Suc k]"
    by (simp only: upt_conv_Cons [of 0 "Suc (Suc k)"] zero_less_Suc if_True list.map
        map_Suc_upt [symmetric] map_map comp_def add_Suc_right add_Suc add_0_right)
  ultimately show ?case
    by (simp add: rej del: upt_Suc)
qed

text \<open>
  C3, amended. When the configured URL is a list, successive connection attempts go
  round it by the attempt counter modulo its length: after \<open>k\<close> failed attempts
  and one that succeeds, the attempts made are those the adapter had made before,
  followed by one at element \<open>(connectAttempt + i) mod length\<close> for
  \<open>i = 0, \<dots>, k\<close>. With the list host1, host2 on a new adapter, three failures
  are at host1, host2, host1, and the fourth attempt targets host2.
\<close>

theorem connect_round_robin:
  assumes "url (opts s) = UrlArray us" and "us \<noteq> []"
  shows "map_option attempts (connect f tags (replicate k False @ [True]) s) =
     Some (attempts s @
       map (\<lambda>i. Connect (Uri (us ! ((connectAttempt s + i) mod length us)))) [0..<Suc k])"
  using assms by (rule connect_after_failures)

theorem connect_round_robin_witness:
  "map_option attempts (connect (addPrefixTopic None) ctags [False, False, False, True] idle) =
     Some [Connect (Uri ''host1''), Connect (Uri ''host2''),
           Connect (Uri ''host1''), Connect (Uri ''host2'')]"
proof -
  have u: "url (opts idle) = UrlArray [''host1'', ''host2'']"
    by (simp add: idle_def new_adapter_def two_hosts_def plain_opts_def)
  have n: "[''host1'', ''host2''] \<noteq> []" by simp
  have a: "attempts idle = []" "connectAttempt idle = 0"
    by (simp_all add: idle_def new_adapter_def attempts_def)
  have r: "replicate 3 False @ [True] = [False, False, False, True]"
    by (simp add: eval_nat_numeral)
  have m: "map (\<lambda>i. Connect (Uri ([''host1'', ''host2''] ! ((0 + i) mod length [''host1'', ''host2''])))) [0..<Suc 3]
     = [Connect (Uri ''host1''), Connect (Uri ''host2''),
        Connect (Uri ''host1''), Connect (Uri ''host2'')]"
    by code_simp
  from connect_round_robin [OF u n, of "addPrefixTopic None" ctags 3]
  show ?thesis by (simp only: a r m append_Nil)
qed

text \<open>
  C3. The claim: with the URL list host1, host2, if the first three attempts fail, the
  fourth targets host1 again. The index is \<open>(connectAttempt - 1) % 2\<close> with the
  counter incremented before it is read, so the four attempts are at host1, host2,
  host1, host2.
\<close>

theorem fourth_attempt_targets_host2:
  "map_option attempts (connect (addPrefixTopic None) ctags [False, False, False, True] idle) =
     Some [Connect (Uri ''host1''), Connect (Uri ''host2''),
           Connect (Uri ''host1''), Connect (Uri ''host2'')] \<and>
   [Connect (Uri ''host1''), Connect (Uri ''host2''),
    Connect (Uri ''host1''), Connect (Uri ''host2'')] ! 3 \<noteq> Connect (Uri ''host1'')"
proof -
  have u: "url (opts idle) = UrlArray [''host1'', ''host2'']"
    by (simp add: idle_def new_adapter_def two_hosts_def plain_opts_def)
  have n: "[''host1'', ''host2''] \<noteq> []" by simp
  have a: "attempts idle = []" "connectAttempt idle = 0"
    by (simp_all add: idle_def new_adapter_def attempts_def)
  have r: "replicate 3 False @ [True] = [False, False, False, True]"
    by (simp add: eval_nat_numeral)
  have m: "map (\<lambda>i. Connect (Uri ([''host1'', ''host2''] ! ((0 + i) mod length [''host1'', ''host2''])))) [0..<Suc 3]
     = [Connect (Uri ''host1''), Connect (Uri ''host2''),
        Connect (Uri ''host1''), Connect (Uri ''host2'')]"
    by code_simp
  from connect_after_failures [OF u n, of "addPrefixTopic None" ctags 3]
  have "map_option attempts (connect (addPrefixTopic None) ctags [False, False, False, True] idle) =
     Some [Connect (Uri ''host1''), Connect (Uri ''host2''),
           Connect (Uri ''host1''), Connect (Uri ''host2'')]"
    by (simp only: a r m append_Nil)
  then show ?thesis by simp
qed

text \<open>
  The descriptor after a subscription on the first connection, and after the
  reconnection that follows a close: the back-filling of lines 237 to 244 has run on the
  descriptor a second time.
\<close>

lemma resubscription_backfills_again:
  "subscribed_then_reconnected f os chan =
     Some (backfill f os chan, backfill f os (backfill f os chan))"
proof -
  let ?s0 = "new_adapter os (\<lambda>r. chan)"
  have z: "connectionCount ?s0 = 0" "chans ?s0 = (\<lambda>r. chan)" "opts ?s0 = os"
    "subscriptions ?s0 = []" "stopping ?s0 = False"
    by (simp_all add: new_adapter_def)
  from tryConnect_accepted [of f ctags ?s0] obtain s1 where
    t1: "tryConnect f ctags True ?s0 = Inr s1" and
    p1: "chans s1 = (\<lambda>r. chan)" "opts s1 = os" "channel s1 \<noteq> None" "stopping s1 = False"
      "connectionCount s1 = 1" "subscriptions s1 = []"
    using z by auto
  from p1(3) obtain ch where ch: "channel s1 = Some ch" by auto
  define s2 where "s2 = s1\<lparr>chans := (chans s1)(0 := backfill f (opts s1) (chans s1 0)),
            log := log s1 @
              [AssertExchange (chan_name (chans s1 0)),
               AssertQueue (queue_of (chans s1 0)),
               BindQueue (queue_of (chans s1 0)) (chan_name (chans s1 0)),
               InitActive (chan_id (chans s1 0)),
               Consume (queue_of (chans s1 0))],
            subscriptions := map_set (chan_id (chans s1 0)) (0, ''ctag'') (subscriptions s1)\<rparr>"
  have t2: "subscribe f ''ctag'' 0 s1 = Inr s2"
    unfolding s2_def by (rule subscribe_ok [OF ch])
  have p2: "chans s2 0 = backfill f os chan"
    by (simp add: s2_def p1)
  have c2: "0 < connectionCount (on_close s2)" "opts (on_close s2) = os"
    "chans (on_close s2) = (\<lambda>r. chan)(0 := backfill f os chan)"
    "map (fst \<circ> snd) (subscriptions (on_close s2)) = [0]"
    by (simp_all add: s2_def on_close_def emit_def p1 Let_def)
  from tryConnect_accepted [of f ctags "on_close s2"] obtain s3 where
    t3: "tryConnect f ctags True (on_close s2) = Inr s3" and
    p3: "chans s3 = backfilled f os [0] ((\<lambda>r. chan)(0 := backfill f os chan))"
    using c2 by auto
  have "chans s3 0 = backfill f os (backfill f os chan)"
    by (simp add: p3)
  then show ?thesis
    by (simp add: subscribed_then_reconnected_def t1 t2 t3 p2)
qed

lemma resubscription_keeps_queue_and_exchange:
  "chan_name (backfill f os (backfill f os chan)) = chan_name (backfill f os chan)"
  "queue_of (backfill f os (backfill f os chan)) = queue_of (backfill f os chan)"
  by (simp_all add: backfill_names)

text \<open>
  C4. The claim: after a reconnection every descriptor of the subscription table is
  subscribed again with its dead-letter queue name, dead-letter exchange name, queue
  name and exchange name as the first subscription left them. The descriptor in the
  table is the object the first subscription wrote the prefixed dead-letter names into,
  and the re-subscription prefixes them again: with the prefix "ns." and dead-lettering
  enabled on the queue "DLQ", the first subscription leaves "ns.DLQ" and the
  reconnection "ns.ns.DLQ".
\<close>

theorem dead_letter_queue_prefixed_twice:
  "subscribed_then_reconnected (addPrefixTopic (Some ''ns.'')) two_hosts (orders (Some 3) True) =
     Some ((orders (Some 3) True)\<lparr>deadLettering :=
              Some \<lparr>enabled = Some True, queueName = Some ''ns.DLQ'', exchangeName = None\<rparr>\<rparr>,
           (orders (Some 3) True)\<lparr>deadLettering :=
              Some \<lparr>enabled = Some True, queueName = Some ''ns.ns.DLQ'', exchangeName = None\<rparr>\<rparr>)"
  by (simp add: resubscription_backfills_again backfill_def dl_defaultsDeep_def defaults_def
      no_dead_lettering_def addPrefixTopic_def orders_def two_hosts_def plain_opts_def Let_def)

end
